theory Spec2Isabelle
  imports Main "HOL-Library.Sublist"
begin

section \<open>The notes application of \<open>src/notes_frontend/src/App.js\<close>\<close>

text \<open>
  The application keeps a list of notes in a React state that is mirrored to the
  browser's \<open>localStorage\<close>. The hooks \<open>useLocalStorage\<close>, \<open>useNotes\<close> and
  \<open>useTheme\<close> and the handlers of \<open>App\<close> are embedded as functions on explicit
  state. What the JavaScript runtime supplies (the clock \<open>Date.now()\<close>, the random
  source, \<open>localStorage\<close>, \<open>JSON.parse\<close>, \<open>JSON.stringify\<close> and the string functions
  \<open>trim\<close> and \<open>toLowerCase\<close>) enters every definition as an argument.

  A text is a \<open>string\<close>; a character outside ASCII stands as the bytes of its UTF-8
  form.
\<close>

subsection \<open>Notes\<close>

text \<open>The \<open>Note\<close> typedef of the source; the field \<open>id\<close> is named \<open>note_id\<close>.\<close>

record Note =
  note_id :: string
  title :: string
  content :: string
  createdAt :: int
  updatedAt :: int

subsection \<open>\<open>uid\<close>\<close>

text \<open>
  \<open>Number.prototype.toString(36)\<close> on an integer: the digits \<open>0\<close> to \<open>9\<close> and
  \<open>a\<close> to \<open>z\<close>, most significant first, after a minus sign for a negative number.
\<close>

definition digit36 :: "nat \<Rightarrow> char" where
  "digit36 d = (if d < 10 then char_of (48 + d) else char_of (87 + d))"

fun digits36 :: "nat \<Rightarrow> string" where
  "digits36 n = (if n < 36 then [digit36 n] else digits36 (n div 36) @ [digit36 (n mod 36)])"

declare digits36.simps [simp del]

definition toString36 :: "int \<Rightarrow> string" where
  "toString36 n = (if n < 0 then CHR ''-'' # digits36 (nat (- n)) else digits36 (nat n))"

text \<open>
  \<open>uid = () => Math.random().toString(36).slice(2) + Date.now().toString(36)\<close>.
  The argument \<open>rnd\<close> is the text \<open>Math.random().toString(36).slice(2)\<close> (empty when
  the random number is 0), \<open>t\<close> is the reading of \<open>Date.now()\<close> inside \<open>uid\<close>.
\<close>

definition uid :: "string \<Rightarrow> int \<Rightarrow> string" where
  "uid rnd t = rnd @ toString36 t"

subsection \<open>\<open>useNotes\<close>\<close>

text \<open>
  \<open>createNote\<close> reads the clock (\<open>now\<close>), builds the note with a fresh \<open>uid()\<close>
  (which reads the random source and the clock again), passes
  \<open>(prev) => [n, ...prev]\<close> to \<open>setNotes\<close> and returns \<open>n.id\<close>. The model returns
  the new collection and the returned id.
\<close>

definition createNote :: "int \<Rightarrow> string \<Rightarrow> int \<Rightarrow> Note list \<Rightarrow> Note list \<times> string" where
  "createNote now rnd t prev =
     (let n = \<lparr>note_id = uid rnd t, title = ''Untitled'', content = '''',
                createdAt = now, updatedAt = now\<rparr>
      in (n # prev, note_id n))"

text \<open>
  A patch is an object with any subset of the fields \<open>title\<close> and \<open>content\<close>
  (\<open>NoteEditor\<close> sends \<open>{ title: ... }\<close> or \<open>{ content: ... }\<close>). The spread
  \<open>{ ...n, ...patch, updatedAt: Date.now() }\<close> overwrites the fields the patch has.
\<close>

record patch =
  patch_title :: "string option"
  patch_content :: "string option"

definition spread :: "Note \<Rightarrow> patch \<Rightarrow> int \<Rightarrow> Note" where
  "spread n p now =
     n\<lparr>title := (case patch_title p of None \<Rightarrow> title n | Some s \<Rightarrow> s),
       content := (case patch_content p of None \<Rightarrow> content n | Some s \<Rightarrow> s),
       updatedAt := now\<rparr>"

text \<open>
  \<open>prev.map((n) => (n.id === id ? { ...n, ...patch, updatedAt: Date.now() } : n))\<close>.
  The callback reads the clock at every note that has the id; \<open>now k\<close> is the reading
  of \<open>Date.now()\<close> when the callback is at index \<open>k\<close>.
\<close>

definition updateNote :: "string \<Rightarrow> patch \<Rightarrow> (nat \<Rightarrow> int) \<Rightarrow> Note list \<Rightarrow> Note list" where
  "updateNote i p now prev =
     map (\<lambda>(k, n). if note_id n = i then spread n p (now k) else n) (enumerate 0 prev)"

text \<open>\<open>prev.filter((n) => n.id !== id)\<close>\<close>

definition deleteNote :: "string \<Rightarrow> Note list \<Rightarrow> Note list" where
  "deleteNote i prev = filter (\<lambda>n. note_id n \<noteq> i) prev"

subsection \<open>The search filter\<close>

text \<open>
  The two functions of the runtime that the filter calls: \<open>String.prototype.trim\<close>
  and \<open>String.prototype.toLowerCase\<close>. Both follow the Unicode tables of the runtime.
\<close>

record js_strings =
  trim :: "string \<Rightarrow> string"
  toLowerCase :: "string \<Rightarrow> string"

text \<open>
  \<open>s.includes(q)\<close>: \<open>q\<close> occurs in \<open>s\<close> at some position (for well-formed texts,
  occurring among the UTF-8 bytes and occurring among the characters are the same).
\<close>

fun includes_str :: "string \<Rightarrow> string \<Rightarrow> bool" where
  "includes_str [] q = (q = [])"
| "includes_str (c # s) q = (prefix q (c # s) \<or> includes_str s q)"

text \<open>\<open>s || ''\<close> on a string \<open>s\<close>: the empty string is falsy.\<close>

definition or_empty :: "string \<Rightarrow> string" where
  "or_empty s = (if s = [] then [] else s)"

text \<open>The \<open>useMemo\<close> body computing \<open>filtered\<close> from \<open>notes\<close> and \<open>query\<close>.\<close>

definition filtered :: "js_strings \<Rightarrow> Note list \<Rightarrow> string \<Rightarrow> Note list" where
  "filtered sp notes query =
     (let q = toLowerCase sp (trim sp query)
      in if q = [] then notes
         else filter (\<lambda>n. includes_str (toLowerCase sp (or_empty (title n))) q
                         \<or> includes_str (toLowerCase sp (or_empty (content n))) q) notes)"

subsection \<open>The string functions on ASCII text\<close>

text \<open>
  On a text of ASCII characters, \<open>trim\<close> removes the white space characters tab, line
  feed, vertical tab, form feed, carriage return and space from both ends, and
  \<open>toLowerCase\<close> maps the letters \<open>A\<close> to \<open>Z\<close> to \<open>a\<close> to \<open>z\<close> and keeps every other
  character. A runtime conforms when its two functions do this on every ASCII text.
\<close>

definition is_space :: "char \<Rightarrow> bool" where
  "is_space c = (c \<in> set [CHR 0x09, CHR 0x0A, CHR 0x0B, CHR 0x0C, CHR 0x0D, CHR '' ''])"

definition trim_ascii :: "string \<Rightarrow> string" where
  "trim_ascii s = rev (dropWhile is_space (rev (dropWhile is_space s)))"

definition is_upper :: "char \<Rightarrow> bool" where
  "is_upper c = (65 \<le> (of_char c :: nat) \<and> (of_char c :: nat) \<le> 90)"

definition lower_char :: "char \<Rightarrow> char" where
  "lower_char c = (if is_upper c then char_of ((of_char c :: nat) + 32) else c)"

definition toLowerCase_ascii :: "string \<Rightarrow> string" where
  "toLowerCase_ascii s = map lower_char s"

definition is_ascii :: "string \<Rightarrow> bool" where
  "is_ascii s = list_all (\<lambda>c. (of_char c :: nat) < 128) s"

definition ascii_conform :: "js_strings \<Rightarrow> bool" where
  "ascii_conform sp =
     (\<forall>s. is_ascii s \<longrightarrow> trim sp s = trim_ascii s \<and> toLowerCase sp s = toLowerCase_ascii s)"

subsection \<open>Selection and \<open>handleDelete\<close>\<close>

text \<open>
  \<open>selectedId\<close> is \<open>null\<close> or a string: a \<open>string option\<close>. A note is an object and
  so truthy, hence \<open>notes.find((n) => n.id === selectedId) || null\<close> is the first note
  whose id is \<open>selectedId\<close>, or \<open>null\<close>.
\<close>

definition selected :: "Note list \<Rightarrow> string option \<Rightarrow> Note option" where
  "selected ns selectedId = find (\<lambda>n. Some (note_id n) = selectedId) ns"

text \<open>\<open>Array.prototype.findIndex\<close>: the first index whose element satisfies \<open>P\<close>, or -1.\<close>

fun findIndex_from :: "('a \<Rightarrow> bool) \<Rightarrow> 'a list \<Rightarrow> int \<Rightarrow> int" where
  "findIndex_from P [] k = - 1"
| "findIndex_from P (x # xs) k = (if P x then k else findIndex_from P xs (k + 1))"

definition findIndex :: "('a \<Rightarrow> bool) \<Rightarrow> 'a list \<Rightarrow> int" where
  "findIndex P xs = findIndex_from P xs 0"

text \<open>\<open>xs[k]\<close>: \<open>undefined\<close> (here \<open>None\<close>) outside the array.\<close>

definition at_index :: "'a list \<Rightarrow> int \<Rightarrow> 'a option" where
  "at_index xs k = (if 0 \<le> k \<and> k < int (length xs) then Some (xs ! nat k) else None)"

text \<open>
  \<open>v || null\<close> on \<open>v\<close> that is \<open>undefined\<close> or a string: \<open>undefined\<close> and the empty
  string are falsy.
\<close>

definition or_null :: "string option \<Rightarrow> string option" where
  "or_null v = (case v of None \<Rightarrow> None | Some s \<Rightarrow> if s = [] then None else Some s)"

text \<open>
  \<open>handleDelete\<close> on the state \<open>(notes, selectedId)\<close>: it returns at once when nothing
  is selected; otherwise \<open>deleteNote\<close> updates the collection and \<open>setSelectedId\<close>
  receives \<open>remaining[nextIndex]?.id || null\<close>.
\<close>

definition handleDelete :: "Note list \<Rightarrow> string option \<Rightarrow> Note list \<times> string option" where
  "handleDelete ns selectedId =
     (case selected ns selectedId of
        None \<Rightarrow> (ns, selectedId)
      | Some sel \<Rightarrow>
          (let nextIndex = max 0 (findIndex (\<lambda>n. note_id n = note_id sel) ns - 1);
               ns' = deleteNote (note_id sel) ns;
               remaining = filter (\<lambda>n. note_id n \<noteq> note_id sel) ns
           in (ns', or_null (map_option note_id (at_index remaining nextIndex)))))"

text \<open>
  The effect of \<open>App\<close> that runs after a render:
  \<open>if (notes.length && !selectedId) setSelectedId(notes[0].id)\<close>.
\<close>

definition select_first_effect :: "Note list \<Rightarrow> string option \<Rightarrow> string option" where
  "select_first_effect ns selectedId =
     (if ns \<noteq> [] \<and> or_null selectedId = None then Some (note_id (hd ns)) else selectedId)"

subsection \<open>Runs of the store\<close>

text \<open>
  The three operations of \<open>useNotes\<close> with what each reads from the runtime, and
  the collection after a sequence of them.
\<close>

datatype action =
  Create int string int
| Update string patch "nat \<Rightarrow> int"
| Delete string

fun step :: "action \<Rightarrow> Note list \<Rightarrow> Note list" where
  "step (Create now rnd t) ns = fst (createNote now rnd t ns)"
| "step (Update i p now) ns = updateNote i p now ns"
| "step (Delete i) ns = deleteNote i ns"

fun run :: "action list \<Rightarrow> Note list \<Rightarrow> Note list" where
  "run [] ns = ns"
| "run (a # as) ns = run as (step a ns)"

text \<open>Every \<open>Create\<close> of the run draws an id that the collection does not hold yet.\<close>

fun fresh_ids :: "action list \<Rightarrow> Note list \<Rightarrow> bool" where
  "fresh_ids [] ns = True"
| "fresh_ids (Create now rnd t # as) ns =
     (uid rnd t \<notin> note_id ` set ns \<and> fresh_ids as (step (Create now rnd t) ns))"
| "fresh_ids (Update i p now # as) ns = fresh_ids as (step (Update i p now) ns)"
| "fresh_ids (Delete i # as) ns = fresh_ids as (step (Delete i) ns)"

subsection \<open>Sample notes\<close>

text \<open>The notes A (oldest), B and C (newest) of the scenario in the specification.\<close>

definition noteA :: Note where
  "noteA = \<lparr>note_id = ''a1'', title = ''Alpha'', content = ''first note'',
            createdAt = 1000, updatedAt = 1000\<rparr>"

definition noteB :: Note where
  "noteB = \<lparr>note_id = ''b2'', title = ''Groceries'', content = ''Milk'',
            createdAt = 2000, updatedAt = 2500\<rparr>"

definition noteC :: Note where
  "noteC = \<lparr>note_id = ''c3'', title = ''Untitled'', content = '''',
            createdAt = 3000, updatedAt = 3000\<rparr>"

definition title_patch :: "string \<Rightarrow> patch" where
  "title_patch x = \<lparr>patch_title = Some x, patch_content = None\<rparr>"

definition groceries_patch :: patch where
  "groceries_patch = \<lparr>patch_title = Some ''Groceries'', patch_content = Some ''Milk''\<rparr>"

text \<open>The note that \<open>createNote\<close> makes with the id \<open>i\<close> at the clock reading \<open>now\<close>.\<close>

definition fresh_note :: "string \<Rightarrow> int \<Rightarrow> Note" where
  "fresh_note i now = \<lparr>note_id = i, title = ''Untitled'', content = '''', createdAt = now,
                        updatedAt = now\<rparr>"

text \<open>
  Three creates at the clock readings 1, 2 and 3 give the collection \<open>[C, B, A]\<close> of
  the scenario, with the ids \<open>c3\<close>, \<open>b2\<close> and \<open>a1\<close>.
\<close>

definition three_creates :: "action list" where
  "three_creates = [Create 1 ''a'' 1, Create 2 ''b'' 2, Create 3 ''c'' 3]"

text \<open>
  Two creates that draw the same id \<open>k5\<close>: the clock reads 4 and then 5 in the first
  and 5 twice in the second, and the random text is \<open>k\<close> both times.
\<close>

definition colliding_creates :: "action list" where
  "colliding_creates = [Create 1 ''b'' 1, Create 4 ''k'' 5, Create 5 ''k'' 5]"

subsection \<open>The meaning of the search in the specification\<close>




subsection \<open>Values of the runtime\<close>

text \<open>
  What \<open>JSON.parse\<close> can return, and so what a state read from \<open>localStorage\<close> can
  be. No definition computes with the numbers of such values; their type is left open.
\<close>

datatype 'n js_value =
  JNull
| JBool bool
| JNumber 'n
| JString string
| JArray "'n js_value list"
| JObject "(string \<times> 'n js_value) list"

text \<open>Exceptions are values; a computation that may throw returns \<open>exn + 'a\<close>.\<close>

datatype exn = SyntaxError | QuotaExceededError | SecurityError | TypeError

text \<open>\<open>try { body } catch { handler }\<close>: whatever \<open>body\<close> throws is discarded.\<close>

definition try_catch :: "exn + 'a \<Rightarrow> exn + 'a \<Rightarrow> exn + 'a" where
  "try_catch body handler = (case body of Inl e \<Rightarrow> handler | Inr v \<Rightarrow> Inr v)"

text \<open>
  The functions of the runtime that \<open>useLocalStorage\<close> calls, over a storage of type
  \<open>'s\<close> and states of type \<open>'v\<close>: \<open>localStorage.getItem\<close> returns \<open>null\<close> or a text,
  \<open>localStorage.setItem\<close> changes the storage, and each of the four may throw.
\<close>

record ('s, 'v) platform =
  getItem :: "'s \<Rightarrow> string \<Rightarrow> exn + string option"
  setItem :: "'s \<Rightarrow> string \<Rightarrow> string \<Rightarrow> exn + 's"
  JSON_parse :: "string \<Rightarrow> exn + 'v"
  JSON_stringify :: "'v \<Rightarrow> exn + string"

definition STORAGE_KEY :: string where
  "STORAGE_KEY = ''notes-app:notes''"

definition STORAGE_THEME :: string where
  "STORAGE_THEME = ''notes-app:theme''"

subsection \<open>\<open>useLocalStorage\<close>\<close>

text \<open>
  The initialiser of the state (the \<open>load\<close> of the specification):
  \<open>try { const raw = localStorage.getItem(key);
          return raw ? JSON.parse(raw) : initialValue; }
    catch { return initialValue; }\<close>.
  \<open>null\<close> and the empty text are falsy.
\<close>

definition useLocalStorage_init :: "('s, 'v) platform \<Rightarrow> 's \<Rightarrow> string \<Rightarrow> 'v \<Rightarrow> exn + 'v" where
  "useLocalStorage_init pf st key initialValue =
     try_catch
       (case getItem pf st key of
          Inl e \<Rightarrow> Inl e
        | Inr None \<Rightarrow> Inr initialValue
        | Inr (Some raw) \<Rightarrow> (if raw \<noteq> [] then JSON_parse pf raw else Inr initialValue))
       (Inr initialValue)"

text \<open>The hook holds the state in memory, beside the storage of the browser.\<close>

record ('s, 'v) hook =
  state :: 'v
  storage :: 's

text \<open>
  The effect that runs after a change of the state (the \<open>save\<close> of the specification):
  \<open>try { localStorage.setItem(key, JSON.stringify(state)); } catch { }\<close>.
\<close>

definition useLocalStorage_effect ::
  "('s, 'v) platform \<Rightarrow> string \<Rightarrow> ('s, 'v) hook \<Rightarrow> exn + ('s, 'v) hook" where
  "useLocalStorage_effect pf key h =
     try_catch
       (case JSON_stringify pf (state h) of
          Inl e \<Rightarrow> Inl e
        | Inr payload \<Rightarrow>
            (case setItem pf (storage h) key payload of
               Inl e \<Rightarrow> Inl e
             | Inr st \<Rightarrow> Inr (h\<lparr>storage := st\<rparr>)))
       (Inr h)"

subsection \<open>\<open>useTheme\<close>\<close>

text \<open>
  \<open>toggleTheme = () => setTheme((t) => (t === 'light' ? 'dark' : 'light'))\<close>, on
  whatever value the theme state holds.
\<close>

definition toggleTheme :: "'n js_value \<Rightarrow> 'n js_value" where
  "toggleTheme t = (if t = JString ''light'' then JString ''dark'' else JString ''light'')"

subsection \<open>The shape of a stored collection in the specification\<close>

text \<open>
  The specification describes the value under the notes key as a sequence of objects
  that have at least the fields \<open>id\<close>, \<open>title\<close>, \<open>content\<close> (texts) and \<open>createdAt\<close>,
  \<open>updatedAt\<close> (numbers).
\<close>

definition is_text_field :: "(string \<times> 'n js_value) list \<Rightarrow> string \<Rightarrow> bool" where
  "is_text_field fs k = (case map_of fs k of Some (JString s) \<Rightarrow> True | _ \<Rightarrow> False)"

definition is_number_field :: "(string \<times> 'n js_value) list \<Rightarrow> string \<Rightarrow> bool" where
  "is_number_field fs k = (case map_of fs k of Some (JNumber n) \<Rightarrow> True | _ \<Rightarrow> False)"

definition is_note_object :: "'n js_value \<Rightarrow> bool" where
  "is_note_object v =
     (case v of
        JObject fs \<Rightarrow> is_text_field fs ''id'' \<and> is_text_field fs ''title''
                      \<and> is_text_field fs ''content'' \<and> is_number_field fs ''createdAt''
                      \<and> is_number_field fs ''updatedAt''
      | _ \<Rightarrow> False)"

definition is_note_sequence :: "'n js_value \<Rightarrow> bool" where
  "is_note_sequence v = (case v of JArray vs \<Rightarrow> list_all is_note_object vs | _ \<Rightarrow> False)"

subsection \<open>Sample runtimes\<close>

text \<open>
  What \<open>JSON.parse\<close> and \<open>JSON.stringify\<close> yield on the texts and values of the
  examples below: \<open>[]\<close>, \<open>{}\<close>, \<open>null\<close> and \<open>42\<close> are JSON texts, \<open>{oops\<close> is not.
  The examples apply the two functions to nothing else.
\<close>

definition JSON_parse_sample :: "string \<Rightarrow> exn + int js_value" where
  "JSON_parse_sample raw =
     (if raw = ''[]'' then Inr (JArray [])
      else if raw = ''{}'' then Inr (JObject [])
      else if raw = ''null'' then Inr JNull
      else if raw = ''42'' then Inr (JNumber 42)
      else Inl SyntaxError)"

definition JSON_stringify_sample :: "int js_value \<Rightarrow> exn + string" where
  "JSON_stringify_sample v =
     (if v = JArray [] then Inr ''[]''
      else if v = JObject [] then Inr ''{}''
      else if v = JNull then Inr ''null''
      else if v = JNumber 42 then Inr ''42''
      else Inl TypeError)"

text \<open>A browser whose storage works, one whose quota is used up, one that denies access.\<close>

definition browser :: "(string \<rightharpoonup> string, int js_value) platform" where
  "browser = \<lparr>getItem = (\<lambda>st k. Inr (st k)),
              setItem = (\<lambda>st k v. Inr (st(k \<mapsto> v))),
              JSON_parse = JSON_parse_sample,
              JSON_stringify = JSON_stringify_sample\<rparr>"

definition browser_quota_exceeded :: "(string \<rightharpoonup> string, int js_value) platform" where
  "browser_quota_exceeded = browser\<lparr>setItem := (\<lambda>st k v. Inl QuotaExceededError)\<rparr>"

definition browser_access_denied :: "(string \<rightharpoonup> string, int js_value) platform" where
  "browser_access_denied =
     browser\<lparr>getItem := (\<lambda>st k. Inl SecurityError), setItem := (\<lambda>st k v. Inl SecurityError)\<rparr>"

subsection \<open>Sample string functions\<close>

text \<open>A runtime seen on ASCII texts only.\<close>

definition ascii_strings :: js_strings where
  "ascii_strings = \<lparr>trim = trim_ascii, toLowerCase = toLowerCase_ascii\<rparr>"

text \<open>
  Greek text in UTF-8: capital alpha is \<open>CE 91\<close>, capital sigma \<open>CE A3\<close>, small alpha
  \<open>CE B1\<close>, small sigma \<open>CF 83\<close> and small final sigma \<open>CF 82\<close>. \<open>toLowerCase\<close> turns
  a capital sigma at the end of a word into the final sigma: capital alpha, capital
  sigma becomes small alpha, final sigma, while a capital sigma alone becomes the small
  sigma. The examples apply \<open>greek_strings\<close> to these two texts and to the empty text.
\<close>

definition capital_alpha_sigma :: string where
  "capital_alpha_sigma = [CHR 0xCE, CHR 0x91, CHR 0xCE, CHR 0xA3]"

definition capital_sigma :: string where
  "capital_sigma = [CHR 0xCE, CHR 0xA3]"

definition greek_strings :: js_strings where
  "greek_strings =
     \<lparr>trim = trim_ascii,
      toLowerCase = (\<lambda>s. if s = capital_alpha_sigma then [CHR 0xCE, CHR 0xB1, CHR 0xCF, CHR 0x82]
                          else if s = capital_sigma then [CHR 0xCF, CHR 0x83]
                          else toLowerCase_ascii s)\<rparr>"


section \<open>Auxiliary facts\<close>

lemmas samples = noteA_def noteB_def noteC_def title_patch_def groceries_patch_def

lemmas runtimes = browser_def browser_quota_exceeded_def browser_access_denied_def
  JSON_parse_sample_def JSON_stringify_sample_def STORAGE_KEY_def STORAGE_THEME_def

subsection \<open>Ids\<close>

lemma digits36_not_Nil: "digits36 n \<noteq> []"
  by (subst digits36.simps) simp

lemma uid_not_Nil: "uid rnd t \<noteq> []"
  by (simp add: uid_def toString36_def digits36_not_Nil)

lemma length_updateNote: "length (updateNote i p now ns) = length ns"
  by (simp add: updateNote_def)

lemma nth_updateNote:
  "k < length ns \<Longrightarrow>
   updateNote i p now ns ! k = (if note_id (ns ! k) = i then spread (ns ! k) p (now k) else ns ! k)"
  by (simp add: updateNote_def nth_enumerate_eq)

lemma map_id_updateNote: "map note_id (updateNote i p now ns) = map note_id ns"
  by (rule nth_equalityI) (simp_all add: length_updateNote nth_updateNote spread_def)

lemma distinct_deleteNote:
  "distinct (map note_id ns) \<Longrightarrow> distinct (map note_id (deleteNote i ns))"
  by (simp add: deleteNote_def distinct_map_filter)

lemma distinct_run:
  "distinct (map note_id ns) \<Longrightarrow> fresh_ids acts ns \<Longrightarrow> distinct (map note_id (run acts ns))"
proof (induction acts ns rule: fresh_ids.induct)
  case (1 ns)
  then show ?case by simp
next
  case (2 now rnd t as ns)
  then show ?case by (simp add: createNote_def)
next
  case (3 i p now as ns)
  then show ?case by (simp add: map_id_updateNote)
next
  case (4 i as ns)
  then show ?case by (simp add: distinct_deleteNote)
qed

lemma ids_not_Nil_step:
  "\<forall>n\<in>set ns. note_id n \<noteq> [] \<Longrightarrow> \<forall>n\<in>set (step a ns). note_id n \<noteq> []"
proof (cases a)
  case (Create now rnd t)
  then show "\<forall>n\<in>set ns. note_id n \<noteq> [] \<Longrightarrow> \<forall>n\<in>set (step a ns). note_id n \<noteq> []"
    by (simp add: createNote_def uid_not_Nil)
next
  case (Update i p now)
  assume h: "\<forall>n\<in>set ns. note_id n \<noteq> []"
  have "note_id ` set (updateNote i p now ns) = note_id ` set ns"
    using map_id_updateNote[of i p now ns] by (metis set_map)
  then show "\<forall>n\<in>set (step a ns). note_id n \<noteq> []"
    using h Update by (metis image_iff step.simps(2))
next
  case (Delete i)
  then show "\<forall>n\<in>set ns. note_id n \<noteq> [] \<Longrightarrow> \<forall>n\<in>set (step a ns). note_id n \<noteq> []"
    by (simp add: deleteNote_def)
qed

lemma ids_not_Nil_run:
  "\<forall>n\<in>set ns. note_id n \<noteq> [] \<Longrightarrow> \<forall>n\<in>set (run acts ns). note_id n \<noteq> []"
proof (induction acts arbitrary: ns)
  case Nil
  then show ?case by simp
next
  case (Cons a acts)
  then show ?case using ids_not_Nil_step[of ns a] by simp
qed

subsection \<open>Update and delete\<close>

lemma updateNote_absent: "i \<notin> note_id ` set ns \<Longrightarrow> updateNote i p now ns = ns"
  by (rule nth_equalityI) (auto simp: length_updateNote nth_updateNote)

lemma deleteNote_absent: "i \<notin> note_id ` set ns \<Longrightarrow> deleteNote i ns = ns"
  by (induction ns) (auto simp: deleteNote_def)

lemma deleteNote_idem: "deleteNote i (deleteNote i ns) = deleteNote i ns"
  by (simp add: deleteNote_def)

lemma deleteNote_exact:
  "note_id n = i \<Longrightarrow> i \<notin> note_id ` set (pre @ post) \<Longrightarrow> deleteNote i (pre @ n # post) = pre @ post"
  using deleteNote_absent[of i pre] deleteNote_absent[of i post]
  by (simp add: deleteNote_def image_Un)

lemma spread_title:
  "spread n (title_patch x) now = n\<lparr>title := x, updatedAt := now\<rparr>"
  by (simp add: spread_def title_patch_def)

subsection \<open>The position of the selected note\<close>

lemma findIndex_from_first:
  "i < length xs \<Longrightarrow> P (xs ! i) \<Longrightarrow> \<forall>j<i. \<not> P (xs ! j) \<Longrightarrow> findIndex_from P xs k = k + int i"
proof (induction xs arbitrary: i k)
  case Nil
  then show ?case by simp
next
  case (Cons x xs)
  show ?case
  proof (cases i)
    case 0
    with Cons.prems show ?thesis by simp
  next
    case (Suc m)
    from Cons.prems Suc have "\<not> P x" by auto
    moreover from Cons.prems Suc have "findIndex_from P xs (k + 1) = (k + 1) + int m"
      by (intro Cons.IH) auto
    ultimately show ?thesis using Suc by simp
  qed
qed

lemma filter_keeps_prefix:
  assumes "\<forall>j<i. P (xs ! j)" and "i \<le> length xs"
  shows "filter P xs = take i xs @ filter P (drop i xs)"
proof -
  have "\<forall>x\<in>set (take i xs). P x"
    using assms by (auto simp: in_set_conv_nth)
  then have "filter P (take i xs) = take i xs"
    by (simp add: filter_id_conv)
  moreover have "filter P xs = filter P (take i xs) @ filter P (drop i xs)"
    by (metis append_take_drop_id filter_append)
  ultimately show ?thesis by simp
qed

lemma selected_first:
  assumes "i < length ns" "note_id (ns ! i) = s" "\<forall>j<i. note_id (ns ! j) \<noteq> s"
  shows "selected ns (Some s) = Some (ns ! i)"
  unfolding selected_def find_Some_iff using assms by auto

lemma handleDelete_unfold:
  assumes "i < length ns" "note_id (ns ! i) = s" "\<forall>j<i. note_id (ns ! j) \<noteq> s"
  shows "handleDelete ns (Some s) =
     (deleteNote s ns, or_null (map_option note_id (at_index (deleteNote s ns) (max 0 (int i - 1)))))"
proof -
  have "findIndex (\<lambda>n. note_id n = s) ns = int i"
    unfolding findIndex_def using findIndex_from_first[of i ns "\<lambda>n. note_id n = s" 0] assms by simp
  then show ?thesis
    using selected_first[OF assms] assms(2) by (simp add: handleDelete_def deleteNote_def)
qed

lemma deleteNote_prefix:
  assumes "i < length ns" "\<forall>j<i. note_id (ns ! j) \<noteq> s"
  shows "deleteNote s ns = take i ns @ deleteNote s (drop i ns)"
  unfolding deleteNote_def using filter_keeps_prefix[of i "\<lambda>n. note_id n \<noteq> s" ns] assms by simp

lemma at_index_previous:
  assumes "i < length ns" "\<forall>j<i. note_id (ns ! j) \<noteq> s" "0 < i"
  shows "at_index (deleteNote s ns) (int i - 1) = Some (ns ! (i - 1))"
proof -
  have "deleteNote s ns = take i ns @ deleteNote s (drop i ns)"
    using assms deleteNote_prefix by blast
  moreover have "i - 1 < length (take i ns)" using assms by simp
  ultimately have "deleteNote s ns ! (i - 1) = ns ! (i - 1)" "i - 1 < length (deleteNote s ns)"
    using assms by (simp_all add: nth_append)
  moreover have "nat (int i - 1) = i - 1" by simp
  ultimately show ?thesis using assms(3) by (simp add: at_index_def)
qed

lemma at_index_first: "at_index xs 0 = (if xs = [] then None else Some (hd xs))"
  by (cases xs) (simp_all add: at_index_def)

lemma find_filter_same:
  "(\<And>x. P x \<Longrightarrow> Q x) \<Longrightarrow> find P (filter Q xs) = find P xs"
  by (induction xs) auto

lemma selected_after_delete:
  "d \<noteq> s \<Longrightarrow> selected (deleteNote s ns) (Some d) = selected ns (Some d)"
  unfolding selected_def deleteNote_def by (rule find_filter_same) auto

lemma selected_hd: "ns \<noteq> [] \<Longrightarrow> selected ns (Some (note_id (hd ns))) = Some (hd ns)"
  by (cases ns) (simp_all add: selected_def)

subsection \<open>Lower case and containment\<close>

















lemma greek_strings_conform: "ascii_conform greek_strings"
  by (auto simp: ascii_conform_def greek_strings_def is_ascii_def capital_alpha_sigma_def
      capital_sigma_def)

section \<open>Properties\<close>

subsection \<open>Deleting the selected note\<close>

text \<open>
  C1, as the code has it. Take a collection that the store reaches from the empty one
  by create, update and delete, and let the selected id \<open>s\<close> belong to the note at
  index \<open>i\<close> (the first note with that id). \<open>handleDelete\<close> removes the notes with id
  \<open>s\<close>. For \<open>i > 0\<close> the new \<open>selectedId\<close> is the id of the note that stood at
  \<open>i - 1\<close>; the note then selected is the first note of the collection with that id,
  which is the note at \<open>i - 1\<close> whenever no earlier note has the same id. For \<open>i = 0\<close>
  the new first note is selected when notes remain. When no note remains the
  selection is \<open>null\<close>.
\<close>

theorem handleDelete_selects_previous:
  assumes "ns = run acts []"
    and "i < length ns" and "note_id (ns ! i) = s" and "\<forall>j<i. note_id (ns ! j) \<noteq> s"
  shows "fst (handleDelete ns (Some s)) = deleteNote s ns
     \<and> (0 < i \<longrightarrow>
          snd (handleDelete ns (Some s)) = Some (note_id (ns ! (i - 1)))
          \<and> selected (fst (handleDelete ns (Some s))) (snd (handleDelete ns (Some s)))
              = selected ns (Some (note_id (ns ! (i - 1)))))
     \<and> (0 < i \<and> (\<forall>j<i - 1. note_id (ns ! j) \<noteq> note_id (ns ! (i - 1))) \<longrightarrow>
          selected (fst (handleDelete ns (Some s))) (snd (handleDelete ns (Some s)))
            = Some (ns ! (i - 1)))
     \<and> (i = 0 \<and> deleteNote s ns \<noteq> [] \<longrightarrow>
          snd (handleDelete ns (Some s)) = Some (note_id (hd (deleteNote s ns)))
          \<and> selected (fst (handleDelete ns (Some s))) (snd (handleDelete ns (Some s)))
              = Some (hd (deleteNote s ns)))
     \<and> (deleteNote s ns = [] \<longrightarrow> snd (handleDelete ns (Some s)) = None)"
proof -
  note h = handleDelete_unfold[OF assms(2-4)]
  have ne: "\<forall>n\<in>set ns. note_id n \<noteq> []"
    using ids_not_Nil_run[of "[]" acts] assms(1) by simp
  have c1: "fst (handleDelete ns (Some s)) = deleteNote s ns" by (simp add: h)
  have c2: "snd (handleDelete ns (Some s)) = Some (note_id (ns ! (i - 1)))" if "0 < i"
  proof -
    have "ns ! (i - 1) \<in> set ns" using assms(2) by simp
    then have "note_id (ns ! (i - 1)) \<noteq> []" using ne by blast
    then show ?thesis
      using that at_index_previous[OF assms(2) assms(4)] by (simp add: h or_null_def)
  qed
  have c3: "selected (fst (handleDelete ns (Some s))) (snd (handleDelete ns (Some s)))
      = selected ns (Some (note_id (ns ! (i - 1))))" if "0 < i"
  proof -
    have "note_id (ns ! (i - 1)) \<noteq> s" using that assms(4) by simp
    then show ?thesis using c1 c2[OF that] by (simp add: selected_after_delete)
  qed
  have c4: "selected (fst (handleDelete ns (Some s))) (snd (handleDelete ns (Some s)))
      = Some (ns ! (i - 1))"
    if "0 < i" "\<forall>j<i - 1. note_id (ns ! j) \<noteq> note_id (ns ! (i - 1))"
  proof -
    have "i - 1 < length ns" using assms(2) by simp
    then have "selected ns (Some (note_id (ns ! (i - 1)))) = Some (ns ! (i - 1))"
      using that(2) by (intro selected_first) simp_all
    then show ?thesis using c3[OF that(1)] by simp
  qed
  have c5: "snd (handleDelete ns (Some s)) = Some (note_id (hd (deleteNote s ns)))
      \<and> selected (fst (handleDelete ns (Some s))) (snd (handleDelete ns (Some s)))
          = Some (hd (deleteNote s ns))"
    if "i = 0" "deleteNote s ns \<noteq> []"
  proof -
    have "hd (deleteNote s ns) \<in> set (deleteNote s ns)" using that(2) by simp
    then have "hd (deleteNote s ns) \<in> set ns" by (simp add: deleteNote_def)
    then have "note_id (hd (deleteNote s ns)) \<noteq> []" using ne by blast
    then have "snd (handleDelete ns (Some s)) = Some (note_id (hd (deleteNote s ns)))"
      using that by (simp add: h at_index_first or_null_def)
    then show ?thesis using c1 selected_hd[OF that(2)] by simp
  qed
  have c6: "snd (handleDelete ns (Some s)) = None" if "deleteNote s ns = []"
  proof (cases "0 < i")
    case True
    then show ?thesis
      using at_index_previous[OF assms(2) assms(4)] that by (simp add: at_index_def)
  next
    case False
    then show ?thesis using that by (simp add: h at_index_first or_null_def)
  qed
  from c1 c2 c3 c4 c5 c6 show ?thesis by blast
qed

text \<open>
  The scenario of the specification: in \<open>[C, B, A]\<close> with B selected, deleting B selects
  C. Deleting the first note C selects B, and deleting the only note selects nothing.
\<close>

theorem handleDelete_selects_previous_witness:
  "run three_creates [] = [fresh_note ''c3'' 3, fresh_note ''b2'' 2, fresh_note ''a1'' 1]
   \<and> snd (handleDelete (run three_creates []) (Some ''b2'')) = Some ''c3''
   \<and> selected (fst (handleDelete (run three_creates []) (Some ''b2'')))
        (snd (handleDelete (run three_creates []) (Some ''b2''))) = Some (fresh_note ''c3'' 3)
   \<and> fst (handleDelete (run three_creates []) (Some ''b2''))
       = [fresh_note ''c3'' 3, fresh_note ''a1'' 1]
   \<and> snd (handleDelete (run three_creates []) (Some ''c3'')) = Some ''b2''
   \<and> snd (handleDelete (run [Create 1 ''a'' 1] []) (Some ''a1'')) = None"
proof -
  let ?ns = "[fresh_note ''c3'' 3, fresh_note ''b2'' 2, fresh_note ''a1'' 1]"
  have r: "?ns = run three_creates []" and r1: "[fresh_note ''a1'' 1] = run [Create 1 ''a'' 1] []"
    by code_simp+
  have b: "1 < length ?ns" "note_id (?ns ! 1) = ''b2''" "\<forall>j<1. note_id (?ns ! j) \<noteq> ''b2''"
    by (simp_all add: fresh_note_def)
  have b': "0 < (1::nat) \<and> (\<forall>j<1 - 1. note_id (?ns ! j) \<noteq> note_id (?ns ! (1 - 1)))"
    by simp
  have c: "0 < length ?ns" "note_id (?ns ! 0) = ''c3''" "\<forall>j<0. note_id (?ns ! j) \<noteq> ''c3''"
    by (simp_all add: fresh_note_def)
  have c': "(0::nat) = 0 \<and> deleteNote ''c3'' ?ns \<noteq> []"
    by (simp add: fresh_note_def deleteNote_def)
  have a: "0 < length [fresh_note ''a1'' 1]" "note_id ([fresh_note ''a1'' 1] ! 0) = ''a1''"
    "\<forall>j<0. note_id ([fresh_note ''a1'' 1] ! j) \<noteq> ''a1''"
    by (simp_all add: fresh_note_def)
  have a': "deleteNote ''a1'' [fresh_note ''a1'' 1] = []"
    by (simp add: fresh_note_def deleteNote_def)
  have "snd (handleDelete ?ns (Some ''b2'')) = Some (note_id (?ns ! (1 - 1)))"
    and "selected (fst (handleDelete ?ns (Some ''b2''))) (snd (handleDelete ?ns (Some ''b2'')))
           = Some (?ns ! (1 - 1))"
    and "fst (handleDelete ?ns (Some ''b2'')) = deleteNote ''b2'' ?ns"
    using handleDelete_selects_previous[OF r b] b' by auto
  moreover have "snd (handleDelete ?ns (Some ''c3'')) = Some (note_id (hd (deleteNote ''c3'' ?ns)))"
    using handleDelete_selects_previous[OF r c] c' by auto
  moreover have "snd (handleDelete [fresh_note ''a1'' 1] (Some ''a1'')) = None"
    using handleDelete_selects_previous[OF r1 a] a' by auto
  moreover have "deleteNote ''b2'' ?ns = [fresh_note ''c3'' 3, fresh_note ''a1'' 1]"
    "hd (deleteNote ''c3'' ?ns) = fresh_note ''b2'' 2"
    "note_id (fresh_note ''c3'' 3) = ''c3''" "note_id (fresh_note ''b2'' 2) = ''b2''"
    by (simp_all add: fresh_note_def deleteNote_def)
  ultimately show ?thesis using r[symmetric] r1[symmetric] by simp
qed

text \<open>
  The claim as stated fails where an earlier note shares the id of the note before the
  deleted one. After \<open>colliding_creates\<close> the collection holds two notes with the id
  \<open>k5\<close>, created at 5 (index 0) and at 4 (index 1), before the note \<open>b1\<close> (index 2).
  With \<open>b1\<close> selected, deleting it sets \<open>selectedId\<close> to \<open>k5\<close>, and the note selected is
  the one at index 0, not the one that stood at index 1.
\<close>

theorem handleDelete_repeated_id_counterexample:
  "run colliding_creates [] = [fresh_note ''k5'' 5, fresh_note ''k5'' 4, fresh_note ''b1'' 1]
   \<and> run colliding_creates [] ! (2 - 1) = fresh_note ''k5'' 4
   \<and> handleDelete (run colliding_creates []) (Some ''b1'')
       = ([fresh_note ''k5'' 5, fresh_note ''k5'' 4], Some ''k5'')
   \<and> selected [fresh_note ''k5'' 5, fresh_note ''k5'' 4] (Some ''k5'') = Some (fresh_note ''k5'' 5)
   \<and> fresh_note ''k5'' 5 \<noteq> fresh_note ''k5'' 4"
  by code_simp

subsection \<open>Creating a note\<close>

text \<open>
  C2. For every starting collection, \<open>createNote\<close> produces a note with title
  \<open>Untitled\<close>, empty content and \<open>createdAt\<close> equal to \<open>updatedAt\<close>, both the
  clock reading \<open>now\<close>; it puts that note in front of the collection, whose notes stay
  as they were and in their order, and it returns the id of the new note.
\<close>

theorem createNote_prepends_untitled:
  "\<exists>n. createNote now rnd t prev = (n # prev, note_id n)
       \<and> title n = ''Untitled'' \<and> content n = ''''
       \<and> createdAt n = now \<and> updatedAt n = now \<and> createdAt n = updatedAt n
       \<and> note_id n = uid rnd t"
  by (simp add: createNote_def)

theorem createNote_prepends_untitled_witness:
  "tl (fst (createNote 3000 ''k'' 5 [noteB, noteA])) = [noteB, noteA]
   \<and> title (hd (fst (createNote 3000 ''k'' 5 [noteB, noteA]))) = ''Untitled''
   \<and> content (hd (fst (createNote 3000 ''k'' 5 [noteB, noteA]))) = ''''
   \<and> createdAt (hd (fst (createNote 3000 ''k'' 5 [noteB, noteA]))) = 3000
   \<and> updatedAt (hd (fst (createNote 3000 ''k'' 5 [noteB, noteA]))) = 3000
   \<and> snd (createNote 3000 ''k'' 5 [noteB, noteA])
       = note_id (hd (fst (createNote 3000 ''k'' 5 [noteB, noteA])))
   \<and> snd (createNote 3000 ''k'' 5 [noteB, noteA]) = ''k5''"
proof -
  have "uid ''k'' 5 = ''k5''" by code_simp
  then show ?thesis
    using createNote_prepends_untitled[of 3000 "''k''" 5 "[noteB, noteA]"] by auto
qed

subsection \<open>Updating a title\<close>

text \<open>
  C3, as the code has it. For every collection with a note of id \<open>i\<close> at index \<open>k\<close>,
  \<open>updateNote i {title: x}\<close> keeps the length and the order of the collection; the
  note at \<open>k\<close> gets the title \<open>x\<close> and, as \<open>updatedAt\<close>, the clock reading \<open>now k\<close>
  of its update, and keeps its content, id and \<open>createdAt\<close>; every note with another
  id is unchanged. Hence \<open>updatedAt \<ge> createdAt\<close> holds afterwards exactly when that
  clock reading is not before \<open>createdAt\<close>; what \<open>updatedAt\<close> was before plays no part.
\<close>

theorem updateNote_title:
  assumes "k < length ns" and "note_id (ns ! k) = i"
  shows "length (updateNote i (title_patch x) now ns) = length ns
     \<and> map note_id (updateNote i (title_patch x) now ns) = map note_id ns
     \<and> title (updateNote i (title_patch x) now ns ! k) = x
     \<and> content (updateNote i (title_patch x) now ns ! k) = content (ns ! k)
     \<and> note_id (updateNote i (title_patch x) now ns ! k) = i
     \<and> createdAt (updateNote i (title_patch x) now ns ! k) = createdAt (ns ! k)
     \<and> updatedAt (updateNote i (title_patch x) now ns ! k) = now k
     \<and> (createdAt (ns ! k) \<le> now k \<longleftrightarrow>
          createdAt (updateNote i (title_patch x) now ns ! k)
            \<le> updatedAt (updateNote i (title_patch x) now ns ! k))
     \<and> (\<forall>j<length ns. note_id (ns ! j) \<noteq> i
          \<longrightarrow> updateNote i (title_patch x) now ns ! j = ns ! j)"
  using assms by (simp add: length_updateNote nth_updateNote map_id_updateNote spread_title)

text \<open>B, created at 2000, gets the title \<open>X\<close> at the clock reading 2600.\<close>

theorem updateNote_title_witness:
  "updateNote ''b2'' (title_patch ''X'') (\<lambda>k. 2600) [noteC, noteB, noteA]
     = [noteC, noteB\<lparr>title := ''X'', updatedAt := 2600\<rparr>, noteA]
   \<and> createdAt noteB \<le> 2600
   \<and> createdAt (updateNote ''b2'' (title_patch ''X'') (\<lambda>k. 2600) [noteC, noteB, noteA] ! 1)
       \<le> updatedAt (updateNote ''b2'' (title_patch ''X'') (\<lambda>k. 2600) [noteC, noteB, noteA] ! 1)"
proof -
  let ?ns = "[noteC, noteB, noteA]"
  have h: "1 < length ?ns" "note_id (?ns ! 1) = ''b2''" by (simp_all add: samples)
  have c: "createdAt (?ns ! 1) \<le> (\<lambda>k. 2600) (1::nat)" by (simp add: samples)
  have "createdAt (updateNote ''b2'' (title_patch ''X'') (\<lambda>k. 2600) ?ns ! 1)
      \<le> updatedAt (updateNote ''b2'' (title_patch ''X'') (\<lambda>k. 2600) ?ns ! 1)"
    using updateNote_title[OF h, of "''X''" "\<lambda>k. 2600"] c by blast
  moreover have "updateNote ''b2'' (title_patch ''X'') (\<lambda>k. 2600) ?ns
      = [noteC, noteB\<lparr>title := ''X'', updatedAt := 2600\<rparr>, noteA]"
    by (simp add: samples updateNote_def spread_def)
  ultimately show ?thesis using c by simp
qed

text \<open>
  The claim as stated fails when the clock reads less than \<open>createdAt\<close>: B was created
  at 2000 and last updated at 2500; updated at the clock reading 1999 it ends with
  \<open>updatedAt < createdAt\<close>.
\<close>

theorem updateNote_clock_counterexample:
  "note_id noteB = ''b2'' \<and> createdAt noteB \<le> updatedAt noteB
   \<and> \<not> createdAt (updateNote ''b2'' (title_patch ''X'') (\<lambda>k. 1999) [noteC, noteB, noteA] ! 1)
        \<le> updatedAt (updateNote ''b2'' (title_patch ''X'') (\<lambda>k. 1999) [noteC, noteB, noteA] ! 1)"
  by (simp add: samples updateNote_def spread_def)

subsection \<open>Operations on an id that is not there\<close>

text \<open>
  C4. For every collection and every id that no note has, \<open>updateNote\<close> and
  \<open>deleteNote\<close> return the collection as it is. \<open>deleteNote\<close> removes the note with
  the id and no other (the notes that stay are those with another id, and a collection
  that holds the id once loses that one note), and deleting twice is deleting once.
\<close>

theorem update_delete_missing_id:
  "(i \<notin> note_id ` set ns \<longrightarrow> updateNote i p now ns = ns \<and> deleteNote i ns = ns)
   \<and> (note_id n = i \<and> i \<notin> note_id ` set (pre @ post)
        \<longrightarrow> deleteNote i (pre @ n # post) = pre @ post)
   \<and> (\<forall>m. m \<in> set (deleteNote i ns) \<longleftrightarrow> m \<in> set ns \<and> note_id m \<noteq> i)
   \<and> deleteNote i (deleteNote i ns) = deleteNote i ns"
  using updateNote_absent[of i ns p now] deleteNote_absent[of i ns]
    deleteNote_exact[of n i pre post] deleteNote_idem[of i ns]
  by (auto simp: deleteNote_def)

theorem update_delete_missing_id_witness:
  "''zz'' \<notin> note_id ` set [noteC, noteB, noteA]
   \<and> updateNote ''zz'' (title_patch ''X'') (\<lambda>k. 2600) [noteC, noteB, noteA]
       = [noteC, noteB, noteA]
   \<and> deleteNote ''zz'' [noteC, noteB, noteA] = [noteC, noteB, noteA]
   \<and> deleteNote ''b2'' [noteC, noteB, noteA] = [noteC, noteA]
   \<and> deleteNote ''b2'' (deleteNote ''b2'' [noteC, noteB, noteA]) = [noteC, noteA]"
  using update_delete_missing_id[where i = "''zz''" and ns = "[noteC, noteB, noteA]"
      and p = "title_patch ''X''" and now = "\<lambda>k. 2600"]
    update_delete_missing_id[where i = "''b2''" and ns = "[noteC, noteA]" and n = noteB
      and pre = "[noteC]" and post = "[noteA]"]
  by (simp add: samples)

subsection \<open>The search\<close>




subsection \<open>Reading the stored state\<close>

text \<open>
  C6, as the code has it. \<open>useLocalStorage_init\<close> never throws. It returns the
  initial value when reading the storage throws, when the key is absent, when the
  stored text is empty and when \<open>JSON.parse\<close> throws on the stored text. Whatever
  \<open>JSON.parse\<close> returns is the state, of any shape: no shape is checked.
\<close>

theorem useLocalStorage_init_fallback:
  "(\<exists>v. useLocalStorage_init pf st key d = Inr v)
   \<and> (getItem pf st key = Inl e \<longrightarrow> useLocalStorage_init pf st key d = Inr d)
   \<and> (getItem pf st key = Inr None \<longrightarrow> useLocalStorage_init pf st key d = Inr d)
   \<and> (getItem pf st key = Inr (Some []) \<longrightarrow> useLocalStorage_init pf st key d = Inr d)
   \<and> (getItem pf st key = Inr (Some raw) \<and> raw \<noteq> [] \<and> JSON_parse pf raw = Inl e'
        \<longrightarrow> useLocalStorage_init pf st key d = Inr d)
   \<and> (getItem pf st key = Inr (Some raw) \<and> raw \<noteq> [] \<and> JSON_parse pf raw = Inr v
        \<longrightarrow> useLocalStorage_init pf st key d = Inr v)"
  by (auto simp: useLocalStorage_init_def try_catch_def split: sum.splits option.splits)

text \<open>
  With no entry, with an entry that is not JSON, with an empty entry and with a browser
  that denies access, the notes start as the empty collection; a stored \<open>[]\<close> is read.
\<close>

theorem useLocalStorage_init_fallback_witness:
  "useLocalStorage_init browser Map.empty STORAGE_KEY (JArray []) = Inr (JArray [])
   \<and> useLocalStorage_init browser [STORAGE_KEY \<mapsto> ''{oops''] STORAGE_KEY (JArray [])
       = Inr (JArray [])
   \<and> useLocalStorage_init browser [STORAGE_KEY \<mapsto> ''''] STORAGE_KEY (JArray []) = Inr (JArray [])
   \<and> useLocalStorage_init browser_access_denied [STORAGE_KEY \<mapsto> ''42''] STORAGE_KEY (JArray [])
       = Inr (JArray [])
   \<and> useLocalStorage_init browser [STORAGE_THEME \<mapsto> ''42''] STORAGE_THEME (JString ''light'')
       = Inr (JNumber 42)"
proof -
  let ?d = "JArray [] :: int js_value"
  have "getItem browser Map.empty STORAGE_KEY = Inr None"
    by (simp add: runtimes)
  then have 1: "useLocalStorage_init browser Map.empty STORAGE_KEY ?d = Inr ?d"
    using useLocalStorage_init_fallback[of browser Map.empty STORAGE_KEY ?d] by blast
  have "getItem browser [STORAGE_KEY \<mapsto> ''{oops''] STORAGE_KEY = Inr (Some ''{oops'')
      \<and> ''{oops'' \<noteq> [] \<and> JSON_parse browser ''{oops'' = Inl SyntaxError"
    by (simp add: runtimes)
  then have 2: "useLocalStorage_init browser [STORAGE_KEY \<mapsto> ''{oops''] STORAGE_KEY ?d = Inr ?d"
    using useLocalStorage_init_fallback[of browser "[STORAGE_KEY \<mapsto> ''{oops'']" STORAGE_KEY ?d
        _ "''{oops''" SyntaxError]
    by blast
  have "getItem browser [STORAGE_KEY \<mapsto> ''''] STORAGE_KEY = Inr (Some [])"
    by (simp add: runtimes)
  then have 3: "useLocalStorage_init browser [STORAGE_KEY \<mapsto> ''''] STORAGE_KEY ?d = Inr ?d"
    using useLocalStorage_init_fallback[of browser "[STORAGE_KEY \<mapsto> '''']" STORAGE_KEY ?d]
    by blast
  have "getItem browser_access_denied [STORAGE_KEY \<mapsto> ''42''] STORAGE_KEY = Inl SecurityError"
    by (simp add: runtimes)
  then have 4: "useLocalStorage_init browser_access_denied [STORAGE_KEY \<mapsto> ''42''] STORAGE_KEY ?d
      = Inr ?d"
    using useLocalStorage_init_fallback[of browser_access_denied "[STORAGE_KEY \<mapsto> ''42'']"
        STORAGE_KEY ?d SecurityError]
    by blast
  have "getItem browser [STORAGE_THEME \<mapsto> ''42''] STORAGE_THEME = Inr (Some ''42'')
      \<and> ''42'' \<noteq> [] \<and> JSON_parse browser ''42'' = Inr (JNumber 42)"
    by (simp add: runtimes)
  then have 5: "useLocalStorage_init browser [STORAGE_THEME \<mapsto> ''42''] STORAGE_THEME
      (JString ''light'') = Inr (JNumber 42)"
    using useLocalStorage_init_fallback[of browser "[STORAGE_THEME \<mapsto> ''42'']" STORAGE_THEME
        "JString ''light''" _ "''42''" _ "JNumber 42"]
    by blast
  from 1 2 3 4 5 show ?thesis by simp
qed

text \<open>
  The claim as stated fails on a well-formed text of the wrong shape: with \<open>{}\<close>
  stored under the notes key, the state is the object and not the empty collection.
\<close>

theorem useLocalStorage_init_shape_counterexample:
  "JSON_parse browser ''{}'' = Inr (JObject [])
   \<and> \<not> is_note_sequence (JObject [] :: int js_value)
   \<and> useLocalStorage_init browser [STORAGE_KEY \<mapsto> ''{}''] STORAGE_KEY (JArray [])
       = Inr (JObject [])
   \<and> useLocalStorage_init browser [STORAGE_KEY \<mapsto> ''{}''] STORAGE_KEY (JArray [])
       \<noteq> Inr (JArray [])"
  by (simp add: runtimes useLocalStorage_init_def try_catch_def is_note_sequence_def)

subsection \<open>Writing the state\<close>

text \<open>
  C7. For every key and state, \<open>useLocalStorage_effect\<close> does not throw and leaves
  the state in memory as it is; when \<open>JSON.stringify\<close> or the write
  \<open>localStorage.setItem\<close> throws, the failure is discarded and the hook, state and
  storage, is unchanged.
\<close>

theorem useLocalStorage_effect_swallows:
  "(\<exists>h'. useLocalStorage_effect pf key h = Inr h' \<and> state h' = state h)
   \<and> (JSON_stringify pf (state h) = Inr payload \<and> setItem pf (storage h) key payload = Inl e
        \<longrightarrow> useLocalStorage_effect pf key h = Inr h)
   \<and> (JSON_stringify pf (state h) = Inl e \<longrightarrow> useLocalStorage_effect pf key h = Inr h)
   \<and> (JSON_stringify pf (state h) = Inr payload \<and> setItem pf (storage h) key payload = Inr st
        \<longrightarrow> useLocalStorage_effect pf key h = Inr (h\<lparr>storage := st\<rparr>))"
  by (auto simp: useLocalStorage_effect_def try_catch_def split: sum.splits)

theorem useLocalStorage_effect_swallows_witness:
  "useLocalStorage_effect browser_quota_exceeded STORAGE_KEY
       \<lparr>state = JArray [], storage = [STORAGE_KEY \<mapsto> ''{}'']\<rparr>
     = Inr \<lparr>state = JArray [], storage = [STORAGE_KEY \<mapsto> ''{}'']\<rparr>
   \<and> useLocalStorage_effect browser STORAGE_KEY
       \<lparr>state = JArray [], storage = [STORAGE_KEY \<mapsto> ''{}'']\<rparr>
     = Inr \<lparr>state = JArray [], storage = [STORAGE_KEY \<mapsto> ''[]'']\<rparr>"
proof -
  let ?h = "\<lparr>state = JArray [] :: int js_value, storage = [STORAGE_KEY \<mapsto> ''{}'']\<rparr>"
  have "JSON_stringify browser_quota_exceeded (state ?h) = Inr ''[]''
      \<and> setItem browser_quota_exceeded (storage ?h) STORAGE_KEY ''[]'' = Inl QuotaExceededError"
    by (simp add: runtimes)
  then have 1: "useLocalStorage_effect browser_quota_exceeded STORAGE_KEY ?h = Inr ?h"
    using useLocalStorage_effect_swallows[of browser_quota_exceeded STORAGE_KEY ?h "''[]''"
        QuotaExceededError]
    by blast
  have "JSON_stringify browser (state ?h) = Inr ''[]''
      \<and> setItem browser (storage ?h) STORAGE_KEY ''[]'' = Inr [STORAGE_KEY \<mapsto> ''[]'']"
    by (simp add: runtimes)
  then have 2: "useLocalStorage_effect browser STORAGE_KEY ?h
      = Inr (?h\<lparr>storage := [STORAGE_KEY \<mapsto> ''[]'']\<rparr>)"
    using useLocalStorage_effect_swallows[of browser STORAGE_KEY ?h "''[]''" _
        "[STORAGE_KEY \<mapsto> ''[]'']"]
    by blast
  from 1 2 show ?thesis by simp
qed

subsection \<open>Distinct ids\<close>

text \<open>
  C8, as the code has it. After any sequence of create, update and delete operations
  from the empty collection in which every create draws an id that the collection does
  not hold at that moment, the ids of the collection are pairwise distinct. The code
  does not compare a new id with the ids in the collection.
\<close>

theorem distinct_ids_when_fresh:
  "fresh_ids acts [] \<Longrightarrow> distinct (map note_id (run acts []))"
  using distinct_run[of "[]" acts] by simp

theorem distinct_ids_when_fresh_witness:
  "fresh_ids [Create 5 ''k'' 5, Update ''k5'' (title_patch ''X'') (\<lambda>k. 6), Create 7 ''k'' 7,
      Delete ''k5''] []
   \<and> distinct (map note_id (run [Create 5 ''k'' 5, Update ''k5'' (title_patch ''X'') (\<lambda>k. 6),
        Create 7 ''k'' 7, Delete ''k5''] []))
   \<and> map note_id (run [Create 5 ''k'' 5, Update ''k5'' (title_patch ''X'') (\<lambda>k. 6),
        Create 7 ''k'' 7, Delete ''k5''] []) = [''k7'']"
proof -
  have f: "fresh_ids [Create 5 ''k'' 5, Update ''k5'' (title_patch ''X'') (\<lambda>k. 6), Create 7 ''k'' 7,
      Delete ''k5''] []"
    by code_simp
  moreover have "map note_id (run [Create 5 ''k'' 5, Update ''k5'' (title_patch ''X'') (\<lambda>k. 6),
      Create 7 ''k'' 7, Delete ''k5''] []) = [''k7'']"
    by code_simp
  ultimately show ?thesis using distinct_ids_when_fresh[OF f] by simp
qed

text \<open>
  The claim as stated fails when two creates draw the same random text at the same
  clock reading: both notes get the id \<open>k5\<close>.
\<close>

theorem duplicate_id_counterexample:
  "run [Create 5 ''k'' 5, Create 5 ''k'' 5] []
     = [\<lparr>note_id = ''k5'', title = ''Untitled'', content = '''', createdAt = 5, updatedAt = 5\<rparr>,
        \<lparr>note_id = ''k5'', title = ''Untitled'', content = '''', createdAt = 5, updatedAt = 5\<rparr>]
   \<and> \<not> distinct (map note_id (run [Create 5 ''k'' 5, Create 5 ''k'' 5] []))"
  by code_simp

subsection \<open>The filtered view keeps the order\<close>

text \<open>
  C9. For every collection and every query, empty or not, \<open>filtered\<close> is a
  subsequence of the collection: its notes stand in the order they have there.
\<close>

theorem filtered_subseq:
  "subseq (filtered sp ns query) ns"
  by (simp add: filtered_def Let_def)

theorem filtered_subseq_witness:
  "subseq (filtered ascii_strings [noteC, noteB, noteA] ''T'') [noteC, noteB, noteA]
   \<and> filtered ascii_strings [noteC, noteB, noteA] ''T'' = [noteC, noteA]"
proof -
  have "filtered ascii_strings [noteC, noteB, noteA] ''T'' = [noteC, noteA]"
    by code_simp
  then show ?thesis
    using filtered_subseq[of ascii_strings "[noteC, noteB, noteA]" "''T''"] by simp
qed

subsection \<open>The theme\<close>

text \<open>
  C10. \<open>toggleTheme\<close> maps \<open>light\<close> to \<open>dark\<close> and every other value, a text or not,
  to \<open>light\<close>; so after a toggle the theme is \<open>light\<close> or \<open>dark\<close>, and two toggles
  from \<open>light\<close> or \<open>dark\<close> give the value back.
\<close>

theorem toggleTheme_two_values:
  "toggleTheme (JString ''light'') = JString ''dark''
   \<and> (t \<noteq> JString ''light'' \<longrightarrow> toggleTheme t = JString ''light'')
   \<and> toggleTheme t \<in> {JString ''light'', JString ''dark''}
   \<and> (t \<in> {JString ''light'', JString ''dark''} \<longrightarrow> toggleTheme (toggleTheme t) = t)"
  by (auto simp: toggleTheme_def)

theorem toggleTheme_two_values_witness:
  "toggleTheme (JNumber 42 :: int js_value) = JString ''light''
   \<and> toggleTheme (JString ''dark'' :: int js_value) = JString ''light''
   \<and> toggleTheme (toggleTheme (JString ''dark'' :: int js_value)) = JString ''dark''
   \<and> toggleTheme (toggleTheme (JString ''light'' :: int js_value)) = JString ''light''"
proof -
  have "(JNumber 42 :: int js_value) \<noteq> JString ''light''"
    and "(JString ''dark'' :: int js_value) \<noteq> JString ''light''"
    and "(JString ''dark'' :: int js_value) \<in> {JString ''light'', JString ''dark''}"
    and "(JString ''light'' :: int js_value) \<in> {JString ''light'', JString ''dark''}"
    by simp_all
  then show ?thesis
    using toggleTheme_two_values[of "JNumber 42 :: int js_value"]
      toggleTheme_two_values[of "JString ''dark'' :: int js_value"]
      toggleTheme_two_values[of "JString ''light'' :: int js_value"]
    by blast
qed

section \<open>Further properties\<close>

subsection \<open>Nothing selected\<close>

text \<open>
  When no note of the collection has the selected id (in particular when the
  selection is \<open>null\<close>), \<open>handleDelete\<close> changes neither the collection nor the
  selection.
\<close>

theorem handleDelete_nothing_selected:
  "selected ns selectedId = None \<Longrightarrow> handleDelete ns selectedId = (ns, selectedId)"
  by (simp add: handleDelete_def)

theorem handleDelete_nothing_selected_witness:
  "selected [noteC, noteB] None = None \<and> handleDelete [noteC, noteB] None = ([noteC, noteB], None)
   \<and> selected [noteC, noteB] (Some ''a1'') = None
   \<and> handleDelete [noteC, noteB] (Some ''a1'') = ([noteC, noteB], Some ''a1'')"
proof -
  have 1: "selected [noteC, noteB] None = None" and 2: "selected [noteC, noteB] (Some ''a1'') = None"
    by (simp_all add: selected_def samples)
  show ?thesis
    using 1 2 handleDelete_nothing_selected[OF 1] handleDelete_nothing_selected[OF 2] by simp
qed

subsection \<open>The first note is selected at the start\<close>

text \<open>
  With a collection that is not empty and no selection, the effect of \<open>App\<close>
  selects the first note of the collection.
\<close>

theorem first_note_selected_on_start:
  "ns \<noteq> [] \<Longrightarrow> select_first_effect ns None = Some (note_id (hd ns))
     \<and> selected ns (select_first_effect ns None) = Some (hd ns)"
  by (cases ns) (simp_all add: select_first_effect_def or_null_def selected_def)

theorem first_note_selected_on_start_witness:
  "[noteC, noteB, noteA] \<noteq> [] \<and> select_first_effect [noteC, noteB, noteA] None = Some ''c3''
   \<and> selected [noteC, noteB, noteA] (select_first_effect [noteC, noteB, noteA] None) = Some noteC"
proof -
  have n: "[noteC, noteB, noteA] \<noteq> []" by simp
  have "note_id noteC = ''c3''" by (simp add: samples)
  with n first_note_selected_on_start[OF n] show ?thesis by auto
qed

subsection \<open>Create, update, search, delete\<close>

text \<open>
  The scenario of the specification, for every clock and random source: from the
  empty collection, \<open>createNote\<close> gives one note titled \<open>Untitled\<close>; updating it with
  the title \<open>Groceries\<close> and the content \<open>Milk\<close> gives one note that the query \<open>milk\<close>
  finds; deleting it while it is selected leaves the empty collection and no selection.
\<close>

theorem scenario_create_update_search_delete:
  "fst (createNote now rnd t []) =
      [\<lparr>note_id = uid rnd t, title = ''Untitled'', content = '''', createdAt = now,
        updatedAt = now\<rparr>]
   \<and> updateNote (uid rnd t) groceries_patch now' (fst (createNote now rnd t [])) =
      [\<lparr>note_id = uid rnd t, title = ''Groceries'', content = ''Milk'', createdAt = now,
        updatedAt = now' 0\<rparr>]
   \<and> filtered ascii_strings
        (updateNote (uid rnd t) groceries_patch now' (fst (createNote now rnd t []))) ''milk''
       = updateNote (uid rnd t) groceries_patch now' (fst (createNote now rnd t []))
   \<and> handleDelete (updateNote (uid rnd t) groceries_patch now' (fst (createNote now rnd t [])))
        (Some (snd (createNote now rnd t []))) = ([], None)"
proof -
  let ?n = "\<lparr>note_id = uid rnd t, title = ''Groceries'', content = ''Milk'', createdAt = now,
        updatedAt = now' 0\<rparr>"
  have c: "createNote now rnd t [] =
      ([\<lparr>note_id = uid rnd t, title = ''Untitled'', content = '''', createdAt = now,
         updatedAt = now\<rparr>], uid rnd t)"
    by (simp add: createNote_def)
  have u: "updateNote (uid rnd t) groceries_patch now' (fst (createNote now rnd t [])) = [?n]"
    by (simp add: c updateNote_def spread_def groceries_patch_def)
  have "includes_str (toLowerCase ascii_strings ''Milk'')
      (toLowerCase ascii_strings (trim ascii_strings ''milk''))"
    and "toLowerCase ascii_strings (trim ascii_strings ''milk'') \<noteq> []"
    by code_simp+
  then have f: "filtered ascii_strings [?n] ''milk'' = [?n]"
    by (simp add: filtered_def Let_def or_empty_def)
  have d: "handleDelete [?n] (Some (uid rnd t)) = ([], None)"
    by (simp add: handleDelete_def selected_def findIndex_def deleteNote_def at_index_def
        or_null_def)
  show ?thesis using c u f d by simp
qed

subsection \<open>Writing, then reading\<close>

text \<open>
  When \<open>JSON.stringify\<close> gives a text that is not empty, the write succeeds,
  the storage then returns that text for the key and \<open>JSON.parse\<close> maps it back to
  the state, the effect stores the state and the initialiser reads it back.
\<close>

theorem save_then_load:
  assumes "JSON_stringify pf (state h) = Inr payload" and "payload \<noteq> []"
    and "setItem pf (storage h) key payload = Inr st"
    and "getItem pf st key = Inr (Some payload)"
    and "JSON_parse pf payload = Inr (state h)"
  shows "useLocalStorage_effect pf key h = Inr (h\<lparr>storage := st\<rparr>)
     \<and> useLocalStorage_init pf st key d = Inr (state h)"
  using assms by (simp add: useLocalStorage_effect_def useLocalStorage_init_def try_catch_def)

theorem save_then_load_witness:
  "useLocalStorage_effect browser STORAGE_KEY \<lparr>state = JArray [], storage = Map.empty\<rparr>
     = Inr \<lparr>state = JArray [], storage = [STORAGE_KEY \<mapsto> ''[]'']\<rparr>
   \<and> useLocalStorage_init browser [STORAGE_KEY \<mapsto> ''[]''] STORAGE_KEY (JObject [])
       = Inr (JArray [])"
proof -
  let ?h = "\<lparr>state = JArray [] :: int js_value, storage = (Map.empty :: string \<rightharpoonup> string)\<rparr>"
  have "JSON_stringify browser (state ?h) = Inr ''[]''" "''[]'' \<noteq> []"
    "setItem browser (storage ?h) STORAGE_KEY ''[]'' = Inr [STORAGE_KEY \<mapsto> ''[]'']"
    "getItem browser [STORAGE_KEY \<mapsto> ''[]''] STORAGE_KEY = Inr (Some ''[]'')"
    "JSON_parse browser ''[]'' = Inr (state ?h)"
    by (simp_all add: runtimes)
  from save_then_load[OF this, of "JObject []"] show ?thesis by simp
qed

subsection \<open>A create that draws a known id\<close>

text \<open>
  When \<open>createNote\<close> draws an id that a note of the collection already has, the
  collection holds that id twice afterwards.
\<close>

theorem createNote_known_id_duplicates:
  "uid rnd t \<in> note_id ` set ns \<Longrightarrow> \<not> distinct (map note_id (fst (createNote now rnd t ns)))"
  by (simp add: createNote_def)

theorem createNote_known_id_duplicates_witness:
  "uid ''k'' 5 \<in> note_id ` set (fst (createNote 5 ''k'' 5 []))
   \<and> \<not> distinct (map note_id (fst (createNote 6 ''k'' 5 (fst (createNote 5 ''k'' 5 [])))))"
proof -
  have m: "uid ''k'' 5 \<in> note_id ` set (fst (createNote 5 ''k'' 5 []))"
    by (simp add: createNote_def)
  show ?thesis using m createNote_known_id_duplicates[OF m, of 6] by simp
qed

end
